theory Spec2Isabelle
  imports Main
begin

section \<open>The platform the client runs on\<close>

text \<open>
  The REST client of \<^verbatim>\<open>src/lib/api.js\<close> and the login handler of
  \<^verbatim>\<open>src/app/login.jsx\<close> are embedded as state-passing functions. Everything the
  module does not define itself (the network, AsyncStorage faults, the process environment,
  Expo constants, the JSON and base64 built-ins, the clock) is a field of the record
  \<open>env\<close>, so every theorem holds for every behaviour of those parts.

  JavaScript values that reach the code as parsed JSON are the datatype \<open>jsv\<close>. Numbers
  are integers (a JWT's \<open>exp\<close> is a number of seconds), NaN is the \<open>None\<close> of a
  conversion, and strings are byte strings. Console output is left out: nothing the
  module computes depends on it.

  Time is the latency of a reply. The code arms its timer before it calls fetch, so a
  timer armed for \<open>d\<close> milliseconds aborts a fetch whose reply takes \<open>d\<close> milliseconds
  or longer: only a reply that takes less than \<open>d\<close> arrives. A reply brings its whole
  body, so reading the body fails only where parsing it does.
\<close>

datatype jsv =
    JUndefined
  | JNull
  | JBool bool
  | JNum int
  | JStr string
  | JArr "jsv list"
  | JObj "(string \<times> jsv) list"

text \<open>A thrown value: an Error object with its \<open>name\<close> and \<open>message\<close>.\<close>

datatype js_error = JsError (err_name: string) (err_message: string)

record request =
  req_url :: string
  req_method :: string
  req_headers :: "string \<rightharpoonup> string"
  req_body :: "string option"

record response =
  res_status :: nat
  res_text :: string

text \<open>
  What the network does with one request: it answers with a response, or the fetch
  rejects; either way after some number of milliseconds. Every fetch settles.
\<close>

datatype net_reply = Reply nat response | NetFail nat js_error

fun latency :: "net_reply \<Rightarrow> nat" where
  "latency (Reply t r) = t"
| "latency (NetFail t e) = t"

fun settle :: "net_reply \<Rightarrow> js_error + response" where
  "settle (Reply t r) = Inr r"
| "settle (NetFail t e) = Inl e"

record env =
  net :: "nat \<Rightarrow> request \<Rightarrow> net_reply"
  read_fails :: "string \<Rightarrow> bool"
  write_fails :: "string \<Rightarrow> bool"
  remove_fails :: bool
  EXPO_PUBLIC_API_BASE :: "string option"
  EXPO_PUBLIC_API_HOST :: "string option"
  API_HOST :: "string option"
  expoConfig_hostUri :: jsv
  expoGo_debuggerHost :: jsv
  manifest_debuggerHost :: jsv
  Platform_OS :: string
  JSON_parse :: "string \<Rightarrow> jsv option"
  JSON_stringify :: "jsv \<Rightarrow> string"
  String_of :: "jsv \<Rightarrow> string"
  Number_of_string :: "string \<Rightarrow> int option"
  has_atob :: bool
  atob :: "string \<Rightarrow> string option"
  Buffer_from_base64 :: "string \<Rightarrow> string"
  Date_now :: int

text \<open>
  The module's mutable state: the module-level variable \<open>API_BASE_URL\<close>, the contents
  of AsyncStorage, the requests handed to \<open>fetch\<close> so far (the network is asked with
  their number, so it may answer differently over time), and the pending timers.
\<close>

record state =
  API_BASE_URL :: string
  storage :: "string \<rightharpoonup> string"
  fetch_log :: "request list"
  timers :: "nat \<rightharpoonup> nat"
  next_timer :: nat

definition response_ok :: "response \<Rightarrow> bool" where
  "response_ok r = (200 \<le> res_status r \<and> res_status r \<le> 299)"

subsection \<open>AsyncStorage\<close>

definition storage_error :: js_error where
  "storage_error = JsError ''Error'' ''AsyncStorage failure''"

definition getItem :: "env \<Rightarrow> string \<Rightarrow> state \<Rightarrow> js_error + string option" where
  "getItem e k s = (if read_fails e k then Inl storage_error else Inr (storage s k))"

definition setItem :: "env \<Rightarrow> string \<Rightarrow> string \<Rightarrow> state \<Rightarrow> (js_error + unit) \<times> state" where
  "setItem e k v s =
     (if write_fails e k then (Inl storage_error, s)
      else (Inr (), s\<lparr>storage := (storage s)(k \<mapsto> v)\<rparr>))"

definition multiRemove :: "env \<Rightarrow> string list \<Rightarrow> state \<Rightarrow> (js_error + unit) \<times> state" where
  "multiRemove e ks s =
     (if remove_fails e then (Inl storage_error, s)
      else (Inr (), s\<lparr>storage := (\<lambda>k. if k \<in> set ks then None else storage s k)\<rparr>))"

subsection \<open>Timers and fetch\<close>

definition setTimeout :: "nat \<Rightarrow> state \<Rightarrow> nat \<times> state" where
  "setTimeout ms s =
     (next_timer s,
      s\<lparr>timers := (timers s)(next_timer s \<mapsto> ms), next_timer := Suc (next_timer s)\<rparr>)"

definition clearTimeout :: "nat \<Rightarrow> state \<Rightarrow> state" where
  "clearTimeout tid s = s\<lparr>timers := (timers s)(tid := None)\<rparr>"

definition abort_error :: js_error where
  "abort_error = JsError ''AbortError'' ''Aborted''"

text \<open>
  \<open>fetch e rq sig s\<close>: the request is logged and the network is asked. \<open>sig\<close> is the
  timer whose callback aborts the controller of the signal passed to fetch (\<open>None\<close> when
  no signal is passed). The timer was armed before this call: when it is pending and the
  reply does not take less than its delay, the timer fires first and the fetch rejects
  with an AbortError.
\<close>

definition fetch :: "env \<Rightarrow> request \<Rightarrow> nat option \<Rightarrow> state \<Rightarrow> (js_error + response) \<times> state" where
  "fetch e rq sig s =
     (let rp = net e (length (fetch_log s)) rq;
          s1 = s\<lparr>fetch_log := fetch_log s @ [rq]\<rparr>
      in case sig of
           None \<Rightarrow> (settle rp, s1)
         | Some tid \<Rightarrow>
             (case timers s tid of
                None \<Rightarrow> (settle rp, s1)
              | Some ms \<Rightarrow>
                  if ms \<le> latency rp
                  then (Inl abort_error, s1\<lparr>timers := (timers s)(tid := None)\<rparr>)
                  else (settle rp, s1)))"

section \<open>Host detection (detectApiBaseUrl)\<close>

definition strip_trailing_slash :: "string \<Rightarrow> string" where
  "strip_trailing_slash u = (if u \<noteq> [] \<and> last u = CHR ''/'' then butlast u else u)"

definition is_http_url :: "string \<Rightarrow> bool" where
  "is_http_url u = (take 7 u = ''http://'' \<or> take 8 u = ''https://'')"

fun truthy :: "jsv \<Rightarrow> bool" where
  "truthy JUndefined = False"
| "truthy JNull = False"
| "truthy (JBool b) = b"
| "truthy (JNum n) = (n \<noteq> 0)"
| "truthy (JStr s) = (s \<noteq> [])"
| "truthy (JArr xs) = True"
| "truthy (JObj kvs) = True"

definition js_or :: "jsv \<Rightarrow> jsv \<Rightarrow> jsv" where
  "js_or a b = (if truthy a then a else b)"

text \<open>An environment variable or stored item: absent, or a string; \<open>a || b\<close> on those.\<close>

definition truthy_str :: "string option \<Rightarrow> bool" where
  "truthy_str x = (case x of None \<Rightarrow> False | Some v \<Rightarrow> v \<noteq> [])"

definition str_or :: "string option \<Rightarrow> string option \<Rightarrow> string option" where
  "str_or a b = (if truthy_str a then a else b)"

text \<open>\<open>[...].filter(Boolean)\<close> on a list of strings, null and undefined.\<close>

definition filter_Boolean :: "string option list \<Rightarrow> string list" where
  "filter_Boolean xs = map the (filter truthy_str xs)"

definition envHost :: "env \<Rightarrow> string option" where
  "envHost e = str_or (EXPO_PUBLIC_API_HOST e) (API_HOST e)"

definition packagerHost :: "env \<Rightarrow> string option" where
  "packagerHost e =
     (case js_or (js_or (expoConfig_hostUri e) (expoGo_debuggerHost e)) (manifest_debuggerHost e) of
        JStr hostUri \<Rightarrow> if hostUri \<noteq> [] then Some (takeWhile (\<lambda>c. c \<noteq> CHR '':'') hostUri) else None
      | _ \<Rightarrow> None)"

definition emulatorHost :: "env \<Rightarrow> string" where
  "emulatorHost e = (if Platform_OS e = ''android'' then ''10.0.2.2'' else ''localhost'')"

definition storedHost :: "env \<Rightarrow> state \<Rightarrow> string option" where
  "storedHost e s = (case getItem e ''lastApiHost'' s of Inl err \<Rightarrow> None | Inr v \<Rightarrow> v)"

definition candidates :: "env \<Rightarrow> state \<Rightarrow> string list" where
  "candidates e s =
     filter_Boolean
       [envHost e,
        storedHost e s,
        packagerHost e,
        Some ''16.176.194.83'',
        Some ''16.176.194.83'',
        Some (emulatorHost e),
        Some ''localhost'']"

record variant =
  base :: string
  health :: string

definition variants :: "string \<Rightarrow> variant list" where
  "variants host =
     [\<lparr>base = ''http://'' @ host @ ''/api'', health = ''http://'' @ host @ ''/api/health''\<rparr>,
      \<lparr>base = ''http://'' @ host @ '':5000/api'', health = ''http://'' @ host @ '':5000/api/health''\<rparr>,
      \<lparr>base = ''https://'' @ host @ ''/api'', health = ''https://'' @ host @ ''/api/health''\<rparr>,
      \<lparr>base = ''https://'' @ host @ '':5000/api'', health = ''https://'' @ host @ '':5000/api/health''\<rparr>]"

text \<open>\<open>fetch(v.health, { signal })\<close>: a GET without headers or body.\<close>

definition probe_request :: "variant \<Rightarrow> request" where
  "probe_request v =
     \<lparr>req_url = health v, req_method = ''GET'', req_headers = Map.empty, req_body = None\<rparr>"

text \<open>The loop over the variants inside \<open>tryHost\<close>.\<close>

fun probe_loop :: "env \<Rightarrow> string \<Rightarrow> variant list \<Rightarrow> state \<Rightarrow> bool \<times> state" where
  "probe_loop e host [] s = (False, s)"
| "probe_loop e host (v # vs) s =
     (let (timeoutId, s1) = setTimeout 3500 s;
          (r, s2) = fetch e (probe_request v) (Some timeoutId) s1
      in case r of
           Inr res \<Rightarrow>
             if response_ok res
             then let s3 = s2\<lparr>API_BASE_URL := strip_trailing_slash (base v)\<rparr>;
                      s4 = snd (setItem e ''lastApiHost'' host s3)
                  in (True, clearTimeout timeoutId s4)
             else probe_loop e host vs (clearTimeout timeoutId s2)
         | Inl err \<Rightarrow> probe_loop e host vs (clearTimeout timeoutId s2))"

definition tryHost :: "env \<Rightarrow> string \<Rightarrow> state \<Rightarrow> bool \<times> state" where
  "tryHost e host s = probe_loop e host (variants host) s"

text \<open>The loop over the candidates, and the fallback return after it.\<close>

fun hosts_loop :: "env \<Rightarrow> string list \<Rightarrow> state \<Rightarrow> string \<times> state" where
  "hosts_loop e [] s = (API_BASE_URL s, s)"
| "hosts_loop e (host # hosts) s =
     (let (ok, s1) = tryHost e host s
      in if ok then (API_BASE_URL s1, s1) else hosts_loop e hosts s1)"

definition full_base_given :: "env \<Rightarrow> bool" where
  "full_base_given e =
     (case EXPO_PUBLIC_API_BASE e of None \<Rightarrow> False | Some envBase \<Rightarrow> envBase \<noteq> [] \<and> is_http_url envBase)"

definition detectApiBaseUrl :: "env \<Rightarrow> state \<Rightarrow> string \<times> state" where
  "detectApiBaseUrl e s =
     (if full_base_given e
      then let s1 = s\<lparr>API_BASE_URL := strip_trailing_slash (the (EXPO_PUBLIC_API_BASE e))\<rparr>
           in (API_BASE_URL s1, s1)
      else hosts_loop e (candidates e s) s)"

section \<open>JavaScript helpers used by the request wrappers\<close>

text \<open>\<open>s.includes(sub)\<close> and \<open>s.replace(pat, rep)\<close> with a string pattern (first match only).\<close>

fun str_includes :: "string \<Rightarrow> string \<Rightarrow> bool" where
  "str_includes [] sub = (sub = [])"
| "str_includes (c # cs) sub = (take (length sub) (c # cs) = sub \<or> str_includes cs sub)"

fun replace_first :: "string \<Rightarrow> string \<Rightarrow> string \<Rightarrow> string" where
  "replace_first pat rep [] = (if pat = [] then rep else [])"
| "replace_first pat rep (c # cs) =
     (if take (length pat) (c # cs) = pat then rep @ drop (length pat) (c # cs)
      else c # replace_first pat rep cs)"

text \<open>\<open>s.split(c)\<close> for a one-character separator.\<close>

fun split_on :: "char \<Rightarrow> string \<Rightarrow> string list" where
  "split_on c [] = [[]]"
| "split_on c (x # xs) =
     (if x = c then [] # split_on c xs
      else (case split_on c xs of [] \<Rightarrow> [[x]] | y # ys \<Rightarrow> (x # y) # ys))"

text \<open>A status code inside a template string.\<close>

fun show_nat :: "nat \<Rightarrow> string" where
  "show_nat n =
     (if n < 10 then [char_of (48 + n)] else show_nat (n div 10) @ [char_of (48 + n mod 10)])"

text \<open>
  \<open>v.k\<close>: reading a property of null or undefined throws a TypeError (the message text
  depends on the engine); a key an object does not have, and any of the keys used here
  on a primitive or an array, reads as undefined.
\<close>

definition type_error :: "string \<Rightarrow> js_error" where
  "type_error k = JsError ''TypeError'' (''Cannot read property '' @ k @ '' of null or undefined'')"

fun get_prop :: "jsv \<Rightarrow> string \<Rightarrow> js_error + jsv" where
  "get_prop JUndefined k = Inl (type_error k)"
| "get_prop JNull k = Inl (type_error k)"
| "get_prop (JObj kvs) k = Inr (case map_of kvs k of None \<Rightarrow> JUndefined | Some v \<Rightarrow> v)"
| "get_prop v k = Inr JUndefined"

text \<open>\<open>new Error(v)\<close> for a defined \<open>v\<close>: the message is \<open>String(v)\<close>.\<close>

definition new_Error :: "env \<Rightarrow> jsv \<Rightarrow> js_error" where
  "new_Error e v = JsError ''Error'' (case v of JStr m \<Rightarrow> m | _ \<Rightarrow> String_of e v)"

text \<open>\<open>Number(v)\<close>; \<open>None\<close> is NaN.\<close>

fun to_number :: "env \<Rightarrow> jsv \<Rightarrow> int option" where
  "to_number e JUndefined = None"
| "to_number e JNull = Some 0"
| "to_number e (JBool b) = Some (if b then 1 else 0)"
| "to_number e (JNum n) = Some n"
| "to_number e (JStr txt) = Number_of_string e txt"
| "to_number e v = Number_of_string e (String_of e v)"

section \<open>The api object\<close>

record options =
  opt_method :: "string option"
  opt_headers :: "(string \<rightharpoonup> string) option"
  opt_body :: jsv

text \<open>\<open>options.headers || {}\<close>\<close>

definition caller_headers :: "options \<Rightarrow> (string \<rightharpoonup> string)" where
  "caller_headers opts = (case opt_headers opts of None \<Rightarrow> Map.empty | Some hs \<Rightarrow> hs)"

text \<open>The \<open>headers\<close> object literal of \<open>config\<close>: later spreads override earlier keys.\<close>

definition request_headers :: "string option \<Rightarrow> options \<Rightarrow> (string \<rightharpoonup> string)" where
  "request_headers token opts =
     [''Content-Type'' \<mapsto> ''application/json'']
       ++ (if truthy_str token then [''Authorization'' \<mapsto> ''Bearer '' @ the token] else Map.empty)
       ++ caller_headers opts"

definition request_config :: "env \<Rightarrow> string \<Rightarrow> string option \<Rightarrow> options \<Rightarrow> request" where
  "request_config e u token opts =
     \<lparr>req_url = u,
      req_method = (if truthy_str (opt_method opts) then the (opt_method opts) else ''GET''),
      req_headers = request_headers token opts,
      req_body =
        (if truthy (opt_body opts)
         then Some (case opt_body opts of JStr b \<Rightarrow> b | v \<Rightarrow> JSON_stringify e v)
         else None)\<rparr>"

text \<open>The \<open>catch (error)\<close> block of \<open>api.request\<close>: which error is thrown on.\<close>

definition request_rethrow :: "string \<Rightarrow> js_error \<Rightarrow> js_error" where
  "request_rethrow b err =
     (if err_name err = ''AbortError''
      then JsError ''Error'' (''Request timed out (10s) contacting '' @ b @ ''.'')
      else if str_includes (err_message err) ''Network request failed''
      then JsError ''Error''
             (''Cannot connect to server at '' @ b @ ''. Please check:'' @ [CHR 0x0A] @
              ''1. Backend server is running'' @ [CHR 0x0A] @
              ''2. Correct IP address'' @ [CHR 0x0A] @
              ''3. Both devices on same network'')
      else err)"

definition api_request :: "env \<Rightarrow> string \<Rightarrow> options \<Rightarrow> state \<Rightarrow> (js_error + jsv) \<times> state" where
  "api_request e endpoint opts s =
     (let token = (case getItem e ''accessToken'' s of Inl err \<Rightarrow> None | Inr v \<Rightarrow> v);
          config = request_config e (API_BASE_URL s @ endpoint) token opts;
          (timeoutId, s1) = setTimeout 10000 s;
          (r, s2) = fetch e config (Some timeoutId) s1
      in case r of
           Inr res \<Rightarrow>
             (let txt = res_text res;
                  data = (if txt \<noteq> [] then (case JSON_parse e txt of Some d \<Rightarrow> d | None \<Rightarrow> JNull)
                          else JNull)
              in if \<not> response_ok res
                 then (Inl (request_rethrow (API_BASE_URL s2)
                              (JsError ''Error''
                                 (if txt \<noteq> [] then ''HTTP '' @ show_nat (res_status res) @ '': '' @ txt
                                  else ''Request failed ('' @ show_nat (res_status res) @ '')''))),
                       clearTimeout timeoutId s2)
                 else (Inr data, clearTimeout timeoutId s2))
         | Inl err \<Rightarrow> (Inl (request_rethrow (API_BASE_URL s2) err), clearTimeout timeoutId s2))"

definition clearAuth :: "env \<Rightarrow> state \<Rightarrow> (js_error + unit) \<times> state" where
  "clearAuth e s = multiRemove e [''accessToken'', ''refreshToken'', ''userData''] s"

definition syntax_error :: js_error where
  "syntax_error = JsError ''SyntaxError'' ''JSON Parse error''"

definition login_request :: "env \<Rightarrow> string \<Rightarrow> string \<Rightarrow> string \<Rightarrow> request" where
  "login_request e b email password =
     \<lparr>req_url = b @ ''/auth/login'',
      req_method = ''POST'',
      req_headers = [''Content-Type'' \<mapsto> ''application/json''],
      req_body = Some (JSON_stringify e (JObj [(''email'', JStr email), (''password'', JStr password)]))\<rparr>"

definition api_login :: "env \<Rightarrow> string \<Rightarrow> string \<Rightarrow> state \<Rightarrow> (js_error + jsv) \<times> state" where
  "api_login e email password s =
     (let (r, s1) = fetch e (login_request e (API_BASE_URL s) email password) None s
      in case r of
           Inl err \<Rightarrow> (Inl err, s1)
         | Inr res \<Rightarrow>
             if \<not> response_ok res
             then (let errorData = (case JSON_parse e (res_text res) of Some d \<Rightarrow> d | None \<Rightarrow> JObj [])
                   in case get_prop errorData ''message'' of
                        Inl err \<Rightarrow> (Inl err, s1)
                      | Inr m \<Rightarrow>
                          if truthy m then (Inl (new_Error e m), s1)
                          else (case get_prop errorData ''error'' of
                                  Inl err \<Rightarrow> (Inl err, s1)
                                | Inr er \<Rightarrow> (Inl (new_Error e (js_or er (JStr ''Login failed''))), s1)))
             else (case JSON_parse e (res_text res) of
                     Some data \<Rightarrow> (Inr data, s1)
                   | None \<Rightarrow> (Inl syntax_error, s1)))"

definition logout :: "env \<Rightarrow> state \<Rightarrow> (js_error + unit) \<times> state" where
  "logout e s =
     (let (r, s1) = api_request e ''/logout''
                      \<lparr>opt_method = Some ''POST'', opt_headers = None, opt_body = JUndefined\<rparr> s
      in clearAuth e s1)"

text \<open>
  \<open>JSON.parse(atob(token.split('.')[1]))\<close>, or the Buffer variant where \<open>atob\<close> is not
  defined; \<open>None\<close> when any step throws. A missing second segment is \<open>undefined\<close>:
  \<open>atob\<close> reads it as the string "undefined", \<open>Buffer.from\<close> throws on it.
\<close>

definition decode_payload :: "env \<Rightarrow> string \<Rightarrow> jsv option" where
  "decode_payload e token =
     (let segs = split_on CHR ''.'' token;
          seg = (if 1 < length segs then Some (segs ! 1) else None);
          decoded =
            (if has_atob e then atob e (case seg of None \<Rightarrow> ''undefined'' | Some b \<Rightarrow> b)
             else (case seg of None \<Rightarrow> None | Some b \<Rightarrow> Some (Buffer_from_base64 e b)))
      in case decoded of None \<Rightarrow> None | Some txt \<Rightarrow> JSON_parse e txt)"

definition isAuthenticated :: "env \<Rightarrow> state \<Rightarrow> js_error + bool" where
  "isAuthenticated e s =
     (case getItem e ''accessToken'' s of
        Inl err \<Rightarrow> Inl err
      | Inr token \<Rightarrow>
          (case getItem e ''userData'' s of
             Inl err \<Rightarrow> Inl err
           | Inr userData \<Rightarrow>
               if \<not> truthy_str token \<or> \<not> truthy_str userData then Inr False
               else (case decode_payload e (the token) of
                       None \<Rightarrow> Inr False
                     | Some payload \<Rightarrow>
                         (case get_prop payload ''exp'' of
                            Inl err \<Rightarrow> Inr False
                          | Inr ex \<Rightarrow>
                              (case to_number e ex of
                                 None \<Rightarrow> Inr False
                               | Some n \<Rightarrow> Inr (n * 1000 > Date_now e))))))"

subsection \<open>testConnection and initializeApp\<close>

definition health_request :: "string \<Rightarrow> request" where
  "health_request h =
     \<lparr>req_url = h, req_method = ''GET'',
      req_headers = [''Content-Type'' \<mapsto> ''application/json''], req_body = None\<rparr>"

definition healthUrls :: "string \<Rightarrow> string list" where
  "healthUrls b =
     filter_Boolean
       [Some (b @ ''/health''),
        if str_includes b '':5000'' then None
        else Some (replace_first ''/api'' [] b @ '':5000/api/health'')]"

fun test_loop :: "env \<Rightarrow> string list \<Rightarrow> state \<Rightarrow> bool \<times> state" where
  "test_loop e [] s = (False, s)"
| "test_loop e (h # hs) s =
     (let (r, s1) = fetch e (health_request h) None s
      in case r of
           Inr res \<Rightarrow>
             if response_ok res
             then (True,
                   if str_includes h '':5000'' \<and> \<not> str_includes (API_BASE_URL s1) '':5000''
                   then s1\<lparr>API_BASE_URL := replace_first ''/api'' [] (API_BASE_URL s1) @ '':5000/api''\<rparr>
                   else s1)
             else test_loop e hs s1
         | Inl err \<Rightarrow> test_loop e hs s1)"

definition testConnection :: "env \<Rightarrow> state \<Rightarrow> bool \<times> state" where
  "testConnection e s = test_loop e (healthUrls (API_BASE_URL s)) s"

definition initializeApp :: "env \<Rightarrow> state \<Rightarrow> bool \<times> state" where
  "initializeApp e s =
     (let (b1, s1) = detectApiBaseUrl e s;
          (isConnected, s2) = testConnection e s1
      in if \<not> isConnected
         then (let (b2, s3) = detectApiBaseUrl e s2
               in testConnection e s3)
         else (isConnected, s2))"

section \<open>The login screen (handleLogin)\<close>

datatype connection_status = Checking | Connected | Failed

text \<open>
  The screen's React state, with the alerts shown and the routes navigated to so far.
\<close>

record login_screen =
  connectionStatus :: connection_status
  email :: string
  password :: string
  loading :: bool
  alerts :: "(string \<times> string) list"
  routes :: "string list"

text \<open>
  What the screen imports from files that are not part of the sources: \<open>login\<close> of the
  auth context, and \<open>LocationPermissionService.ensureAfterLogin\<close> (its result is only
  logged and its exception is swallowed).
\<close>

record screen_deps =
  auth_login :: "jsv \<Rightarrow> state \<Rightarrow> (js_error + unit) \<times> state"
  ensureAfterLogin :: "state \<Rightarrow> state"

definition bullet :: string where
  "bullet = [CHR 0xE2, CHR 0x80, CHR 0xA2]"

definition connection_error_text :: string where
  "connection_error_text =
     ''Cannot connect to server. Please check:'' @ [CHR 0x0A, CHR 0x0A] @
     bullet @ '' Backend is running'' @ [CHR 0x0A] @
     bullet @ '' Correct IP address in lib/api.js'' @ [CHR 0x0A] @
     bullet @ '' Same WiFi network''"

text \<open>\<open>v.k\<close> where \<open>v\<close> is known not to be null or undefined.\<close>

definition field :: "jsv \<Rightarrow> string \<Rightarrow> jsv" where
  "field v k = (case get_prop v k of Inl err \<Rightarrow> JUndefined | Inr x \<Rightarrow> x)"

definition transformedUser :: "jsv \<Rightarrow> jsv" where
  "transformedUser user =
     JObj [(''Account_id'', field user ''id''),
           (''Fullname'', field user ''fullname''),
           (''Username'', field user ''username''),
           (''Email'', field user ''email''),
           (''Role'', field user ''role''),
           (''EmployeeID'', field user ''employeeId''),
           (''Contact'', field user ''contact''),
           (''Address'', field user ''address''),
           (''BranchID'', field user ''branchId''),
           (''Photo'', field user ''photo'')]"

text \<open>The \<open>try\<close> block of \<open>handleLogin\<close>.\<close>

definition login_attempt ::
  "screen_deps \<Rightarrow> env \<Rightarrow> string \<Rightarrow> string \<Rightarrow> state \<Rightarrow> (js_error + unit) \<times> state" where
  "login_attempt d e em pw s =
     (let (r, s1) = api_login e em pw s
      in case r of
           Inl err \<Rightarrow> (Inl err, s1)
         | Inr resp \<Rightarrow>
             (case get_prop resp ''success'' of
                Inl err \<Rightarrow> (Inl err, s1)
              | Inr success \<Rightarrow>
                  if truthy success \<and> truthy (field resp ''user'')
                  then (let (r2, s2) = auth_login d (transformedUser (field resp ''user'')) s1
                        in case r2 of
                             Inl err \<Rightarrow> (Inl err, s2)
                           | Inr u \<Rightarrow> (Inr (), ensureAfterLogin d s2))
                  else (Inl (new_Error e (js_or (field resp ''message'') (JStr ''Login failed''))), s1)))"

definition handleLogin ::
  "screen_deps \<Rightarrow> env \<Rightarrow> login_screen \<Rightarrow> state \<Rightarrow> login_screen \<times> state" where
  "handleLogin d e u s =
     (if connectionStatus u = Failed
      then (u\<lparr>alerts := alerts u @ [(''Connection Error'', connection_error_text)]\<rparr>, s)
      else if email u = [] \<or> password u = []
      then (u\<lparr>alerts := alerts u @ [(''Error'', ''Please enter both email and password.'')]\<rparr>, s)
      else (let (r, s1) = login_attempt d e (email u) (password u) s
            in case r of
                 Inr ok \<Rightarrow> (u\<lparr>loading := False, routes := routes u @ [''/dashboard'']\<rparr>, s1)
               | Inl err \<Rightarrow>
                   (u\<lparr>loading := False,
                      alerts := alerts u @
                        [(''Login Failed'',
                          if err_message err \<noteq> [] then err_message err
                          else ''An error occurred during login'')]\<rparr>,
                    s1)))"

text \<open>
  The login button, the only caller of \<open>handleLogin\<close>: it is rendered with
  \<open>onPress={handleLogin}\<close> and \<open>disabled={loading || connectionStatus === 'failed'}\<close>,
  and a disabled button does not call its handler.
\<close>

definition login_button_press ::
  "screen_deps \<Rightarrow> env \<Rightarrow> login_screen \<Rightarrow> state \<Rightarrow> login_screen \<times> state" where
  "login_button_press d e u s =
     (if loading u \<or> connectionStatus u = Failed then (u, s) else handleLogin d e u s)"

section \<open>Notions the properties are stated with\<close>

text \<open>
  The probe of variant \<open>v\<close>, issued as fetch number \<open>t\<close>, counts as reachable: the network
  answers in less than the 3500 ms of the abort timer, with an ok status.
\<close>

definition probe_ok :: "env \<Rightarrow> nat \<Rightarrow> variant \<Rightarrow> bool" where
  "probe_ok e t v =
     (case net e t (probe_request v) of
        Reply ms res \<Rightarrow> ms < 3500 \<and> response_ok res
      | NetFail ms err \<Rightarrow> False)"

text \<open>
  The request \<open>api.request\<close> hands to fetch: the configuration built from the stored
  access token (none when the storage read fails) and the caller's options.
\<close>

definition outgoing :: "env \<Rightarrow> string \<Rightarrow> options \<Rightarrow> state \<Rightarrow> request" where
  "outgoing e endpoint opts s =
     request_config e (API_BASE_URL s @ endpoint)
       (case getItem e ''accessToken'' s of Inl err \<Rightarrow> None | Inr v \<Rightarrow> v) opts"

text \<open>One round of \<open>initializeApp\<close>: a host detection followed by a connection test.\<close>

definition conn_round :: "env \<Rightarrow> state \<Rightarrow> bool \<times> state" where
  "conn_round e s = testConnection e (snd (detectApiBaseUrl e s))"

text \<open>
  The candidate list as the specification words it: override, cached host, packager host,
  the hardcoded fallbacks, and the emulator loopback host last.
\<close>

definition spec_candidates :: "env \<Rightarrow> state \<Rightarrow> string list" where
  "spec_candidates e s =
     filter_Boolean
       [envHost e,
        storedHost e s,
        packagerHost e,
        Some ''16.176.194.83'',
        Some ''16.176.194.83'',
        Some (emulatorHost e)]"

subsection \<open>Concrete platforms for the examples\<close>

definition network_down :: js_error where
  "network_down = JsError ''TypeError'' ''Network request failed''"

text \<open>An Android device without overrides on which every fetch fails after 20 ms.\<close>

definition offline_env :: env where
  "offline_env =
     \<lparr>net = (\<lambda>t rq. NetFail 20 network_down),
      read_fails = (\<lambda>k. False),
      write_fails = (\<lambda>k. False),
      remove_fails = False,
      EXPO_PUBLIC_API_BASE = None,
      EXPO_PUBLIC_API_HOST = None,
      API_HOST = None,
      expoConfig_hostUri = JUndefined,
      expoGo_debuggerHost = JUndefined,
      manifest_debuggerHost = JUndefined,
      Platform_OS = ''android'',
      JSON_parse =
        (\<lambda>txt. if txt = ''null'' then Some JNull
               else if txt = ''{}'' then Some (JObj [])
               else if txt = ''{\"exp\":1800000000}'' then Some (JObj [(''exp'', JNum 1800000000)])
               else if txt = ''{\"message\":\"Invalid credentials\"}''
               then Some (JObj [(''message'', JStr ''Invalid credentials'')])
               else None),
      JSON_stringify = (\<lambda>v. ''{}''),
      String_of = (\<lambda>v. ''[object Object]''),
      Number_of_string = (\<lambda>txt. None),
      has_atob = True,
      atob =
        (\<lambda>txt. if txt = ''eyJleHAiOjE4MDAwMDAwMDB9'' then Some ''{\"exp\":1800000000}'' else None),
      Buffer_from_base64 = (\<lambda>txt. txt),
      Date_now = 1700000000000\<rparr>"

text \<open>The module as loaded: the initial \<open>API_BASE_URL\<close> of line 9, nothing stored.\<close>

definition initial_state :: state where
  "initial_state =
     \<lparr>API_BASE_URL = ''http://16.176.194.83:5000/api'',
      storage = Map.empty,
      fetch_log = [],
      timers = Map.empty,
      next_timer = 0\<rparr>"

text \<open>An auth context that accepts every user, and a location service that does nothing.\<close>

definition plain_deps :: screen_deps where
  "plain_deps = \<lparr>auth_login = (\<lambda>u s. (Inr (), s)), ensureAfterLogin = (\<lambda>s. s)\<rparr>"

text \<open>The login screen, filled in, after start-up found no server.\<close>

definition failed_screen :: login_screen where
  "failed_screen =
     \<lparr>connectionStatus = Failed, email = ''a@b.c'', password = ''pw'', loading = False,
      alerts = [], routes = []\<rparr>"

text \<open>A call without options, and a state with credentials stored.\<close>

definition no_options :: options where
  "no_options = \<lparr>opt_method = None, opt_headers = None, opt_body = JUndefined\<rparr>"

definition signed_in :: state where
  "signed_in =
     initial_state\<lparr>storage :=
       [''accessToken'' \<mapsto> ''hdr.eyJleHAiOjE4MDAwMDAwMDB9.sig'',
        ''refreshToken'' \<mapsto> ''r1'',
        ''userData'' \<mapsto> ''{}'',
        ''lastApiHost'' \<mapsto> ''10.0.2.2'']\<rparr>"

text \<open>A network on which exactly the URL \<open>u\<close> answers, with status 200 after 120 ms.\<close>

definition serving :: "string \<Rightarrow> nat \<Rightarrow> request \<Rightarrow> net_reply" where
  "serving u t rq =
     (if req_url rq = u then Reply 120 \<lparr>res_status = 200, res_text = ''{\"ok\":true}''\<rparr>
      else NetFail 20 network_down)"

text \<open>
  The offline device with a host override that does not answer, while the hardcoded host
  answers on port 5000 over http only.
\<close>

definition override_env :: env where
  "override_env =
     offline_env\<lparr>EXPO_PUBLIC_API_HOST := Some ''api.example.com'',
                 net := serving ''http://16.176.194.83:5000/api/health''\<rparr>"

text \<open>A network that answers every request after \<open>ms\<close> milliseconds with the same response.\<close>

definition answering :: "nat \<Rightarrow> nat \<Rightarrow> string \<Rightarrow> nat \<Rightarrow> request \<Rightarrow> net_reply" where
  "answering ms code txt t rq = Reply ms \<lparr>res_status = code, res_text = txt\<rparr>"

section \<open>Properties of host detection\<close>

subsection \<open>One probe, one host, the list of hosts\<close>

lemma probe_loop_step_miss:
  "\<not> probe_ok e (length (fetch_log s)) v \<Longrightarrow>
   \<exists>s'. probe_loop e host (v # vs) s = probe_loop e host vs s' \<and>
        API_BASE_URL s' = API_BASE_URL s \<and> storage s' = storage s \<and>
        fetch_log s' = fetch_log s @ [probe_request v]"
  by (auto simp: probe_ok_def setTimeout_def fetch_def clearTimeout_def Let_def
      split: net_reply.splits sum.splits)

lemma probe_loop_step_hit:
  "probe_ok e (length (fetch_log s)) v \<Longrightarrow>
   \<exists>s'. probe_loop e host (v # vs) s = (True, s') \<and>
        API_BASE_URL s' = strip_trailing_slash (base v) \<and>
        storage s' = (if write_fails e ''lastApiHost'' then storage s
                      else (storage s)(''lastApiHost'' \<mapsto> host)) \<and>
        fetch_log s' = fetch_log s @ [probe_request v]"
  by (auto simp: probe_ok_def setTimeout_def fetch_def clearTimeout_def setItem_def Let_def
      split: net_reply.splits sum.splits)

lemma length_variants: "length (variants host) = 4"
  by (simp add: variants_def)

lemma probe_loop_miss:
  "\<forall>i<length vs. \<not> probe_ok e (length (fetch_log s) + i) (vs ! i) \<Longrightarrow>
   \<exists>s'. probe_loop e host vs s = (False, s') \<and>
        API_BASE_URL s' = API_BASE_URL s \<and> storage s' = storage s \<and>
        fetch_log s' = fetch_log s @ map probe_request vs"
proof (induction vs arbitrary: s)
  case Nil
  then show ?case by simp
next
  case (Cons v vs)
  from Cons.prems have "\<not> probe_ok e (length (fetch_log s)) v"
    by (metis add.right_neutral length_greater_0_conv list.distinct(1) nth_Cons_0)
  from probe_loop_step_miss [OF this, of host vs] obtain s1 where
    s1: "probe_loop e host (v # vs) s = probe_loop e host vs s1"
      "API_BASE_URL s1 = API_BASE_URL s" "storage s1 = storage s"
      "fetch_log s1 = fetch_log s @ [probe_request v]"
    by blast
  have "\<forall>i<length vs. \<not> probe_ok e (length (fetch_log s1) + i) (vs ! i)"
  proof (intro allI impI)
    fix i assume "i < length vs"
    then have "\<not> probe_ok e (length (fetch_log s) + Suc i) ((v # vs) ! Suc i)"
      using Cons.prems by (metis Suc_less_eq length_Cons)
    then show "\<not> probe_ok e (length (fetch_log s1) + i) (vs ! i)"
      by (simp add: s1)
  qed
  from Cons.IH [OF this] s1 show ?case by auto
qed

lemma probe_loop_hit:
  "j < length vs \<Longrightarrow> probe_ok e (length (fetch_log s) + j) (vs ! j) \<Longrightarrow>
   \<forall>i<j. \<not> probe_ok e (length (fetch_log s) + i) (vs ! i) \<Longrightarrow>
   \<exists>s'. probe_loop e host vs s = (True, s') \<and>
        API_BASE_URL s' = strip_trailing_slash (base (vs ! j)) \<and>
        storage s' = (if write_fails e ''lastApiHost'' then storage s
                      else (storage s)(''lastApiHost'' \<mapsto> host)) \<and>
        fetch_log s' = fetch_log s @ map probe_request (take (Suc j) vs)"
proof (induction vs arbitrary: s j)
  case Nil
  then show ?case by simp
next
  case (Cons v vs)
  show ?case
  proof (cases j)
    case 0
    with Cons.prems have "probe_ok e (length (fetch_log s)) v" by simp
    from probe_loop_step_hit [OF this, of host vs] 0 show ?thesis by auto
  next
    case (Suc k)
    with Cons.prems have "\<not> probe_ok e (length (fetch_log s)) v"
      by (metis add.right_neutral nth_Cons_0 zero_less_Suc)
    from probe_loop_step_miss [OF this, of host vs] obtain s1 where
      s1: "probe_loop e host (v # vs) s = probe_loop e host vs s1"
        "API_BASE_URL s1 = API_BASE_URL s" "storage s1 = storage s"
        "fetch_log s1 = fetch_log s @ [probe_request v]"
      by blast
    have a: "k < length vs" using Cons.prems Suc by simp
    have b: "probe_ok e (length (fetch_log s1) + k) (vs ! k)"
      using Cons.prems Suc by (simp add: s1)
    have c: "\<forall>i<k. \<not> probe_ok e (length (fetch_log s1) + i) (vs ! i)"
    proof (intro allI impI)
      fix i assume "i < k"
      then have "\<not> probe_ok e (length (fetch_log s) + Suc i) ((v # vs) ! Suc i)"
        using Cons.prems Suc by (metis Suc_less_eq)
      then show "\<not> probe_ok e (length (fetch_log s1) + i) (vs ! i)"
        by (simp add: s1)
    qed
    from Cons.IH [OF a b c] s1 Suc show ?thesis by auto
  qed
qed

lemma tryHost_miss:
  "\<forall>j<4. \<not> probe_ok e (length (fetch_log s) + j) (variants host ! j) \<Longrightarrow>
   \<exists>s'. tryHost e host s = (False, s') \<and>
        API_BASE_URL s' = API_BASE_URL s \<and> storage s' = storage s \<and>
        fetch_log s' = fetch_log s @ map probe_request (variants host)"
  unfolding tryHost_def by (rule probe_loop_miss) (simp add: length_variants)

lemma tryHost_hit:
  "j < 4 \<Longrightarrow> probe_ok e (length (fetch_log s) + j) (variants host ! j) \<Longrightarrow>
   \<forall>i<j. \<not> probe_ok e (length (fetch_log s) + i) (variants host ! i) \<Longrightarrow>
   \<exists>s'. tryHost e host s = (True, s') \<and>
        API_BASE_URL s' = strip_trailing_slash (base (variants host ! j)) \<and>
        storage s' = (if write_fails e ''lastApiHost'' then storage s
                      else (storage s)(''lastApiHost'' \<mapsto> host)) \<and>
        fetch_log s' = fetch_log s @ map probe_request (take (Suc j) (variants host))"
  unfolding tryHost_def by (rule probe_loop_hit) (simp_all add: length_variants)

lemma hosts_loop_miss:
  "\<forall>i<length hs. \<forall>j<4. \<not> probe_ok e (length (fetch_log s) + 4 * i + j) (variants (hs ! i) ! j) \<Longrightarrow>
   \<exists>s'. hosts_loop e hs s = (API_BASE_URL s, s') \<and>
        API_BASE_URL s' = API_BASE_URL s \<and> storage s' = storage s \<and>
        fetch_log s' = fetch_log s @ map probe_request (concat (map variants hs))"
proof (induction hs arbitrary: s)
  case Nil
  then show ?case by simp
next
  case (Cons h hs)
  have "\<forall>j<4. \<not> probe_ok e (length (fetch_log s) + j) (variants h ! j)"
    using Cons.prems by force
  from tryHost_miss [OF this] obtain s1 where
    s1: "tryHost e h s = (False, s1)" "API_BASE_URL s1 = API_BASE_URL s"
      "storage s1 = storage s" "fetch_log s1 = fetch_log s @ map probe_request (variants h)"
    by blast
  have "\<forall>i<length hs. \<forall>j<4.
          \<not> probe_ok e (length (fetch_log s1) + 4 * i + j) (variants (hs ! i) ! j)"
  proof (intro allI impI)
    fix i j :: nat assume "i < length hs" "j < 4"
    then have "\<not> probe_ok e (length (fetch_log s) + 4 * Suc i + j) (variants ((h # hs) ! Suc i) ! j)"
      using Cons.prems by (metis Suc_less_eq length_Cons)
    then show "\<not> probe_ok e (length (fetch_log s1) + 4 * i + j) (variants (hs ! i) ! j)"
      by (simp add: s1 length_variants add.assoc add.commute add.left_commute)
  qed
  from Cons.IH [OF this] s1 show ?case by auto
qed

lemma hosts_loop_hit:
  "\<forall>i<length pre. \<forall>j<4.
      \<not> probe_ok e (length (fetch_log s) + 4 * i + j) (variants (pre ! i) ! j) \<Longrightarrow>
   j < 4 \<Longrightarrow>
   probe_ok e (length (fetch_log s) + 4 * length pre + j) (variants h ! j) \<Longrightarrow>
   \<forall>i<j. \<not> probe_ok e (length (fetch_log s) + 4 * length pre + i) (variants h ! i) \<Longrightarrow>
   \<exists>s'. hosts_loop e (pre @ h # post) s = (strip_trailing_slash (base (variants h ! j)), s') \<and>
        API_BASE_URL s' = strip_trailing_slash (base (variants h ! j)) \<and>
        storage s' = (if write_fails e ''lastApiHost'' then storage s
                      else (storage s)(''lastApiHost'' \<mapsto> h)) \<and>
        fetch_log s' =
          fetch_log s @ map probe_request (concat (map variants pre) @ take (Suc j) (variants h))"
proof (induction pre arbitrary: s)
  case Nil
  from tryHost_hit [of j e s h] Nil show ?case by auto
next
  case (Cons p pre)
  have "\<forall>j<4. \<not> probe_ok e (length (fetch_log s) + j) (variants p ! j)"
    using Cons.prems(1) by force
  from tryHost_miss [OF this] obtain s1 where
    s1: "tryHost e p s = (False, s1)" "API_BASE_URL s1 = API_BASE_URL s"
      "storage s1 = storage s" "fetch_log s1 = fetch_log s @ map probe_request (variants p)"
    by blast
  have len: "length (fetch_log s1) = length (fetch_log s) + 4"
    by (simp add: s1 length_variants)
  have a: "\<forall>i<length pre. \<forall>j<4.
          \<not> probe_ok e (length (fetch_log s1) + 4 * i + j) (variants (pre ! i) ! j)"
  proof (intro allI impI)
    fix i j :: nat assume "i < length pre" "j < 4"
    then have "\<not> probe_ok e (length (fetch_log s) + 4 * Suc i + j) (variants ((p # pre) ! Suc i) ! j)"
      using Cons.prems(1) by (metis Suc_less_eq length_Cons)
    then show "\<not> probe_ok e (length (fetch_log s1) + 4 * i + j) (variants (pre ! i) ! j)"
      by (simp add: len add.assoc add.commute add.left_commute)
  qed
  have eq: "length (fetch_log s1) + 4 * length pre = length (fetch_log s) + 4 * length (p # pre)"
    by (simp add: len)
  have b: "probe_ok e (length (fetch_log s1) + 4 * length pre + j) (variants h ! j)"
    using Cons.prems(3) unfolding eq .
  have c: "\<forall>i<j. \<not> probe_ok e (length (fetch_log s1) + 4 * length pre + i) (variants h ! i)"
    using Cons.prems(4) unfolding eq .
  from Cons.IH [OF a Cons.prems(2) b c] s1 show ?case by auto
qed

lemma all_less_4: "(\<forall>j<4. P (j::nat)) = (P 0 \<and> P 1 \<and> P 2 \<and> P 3)"
  by (auto simp: numeral_eq_Suc less_Suc_eq)

lemma candidates_override:
  "candidates override_env initial_state =
     [''api.example.com''] @ ''16.176.194.83'' # [''16.176.194.83'', ''10.0.2.2'', ''localhost'']"
  by (simp add: candidates_def filter_Boolean_def truthy_str_def envHost_def str_or_def
      storedHost_def getItem_def packagerHost_def js_or_def emulatorHost_def offline_env_def
      override_env_def initial_state_def)

text \<open>
  C1. For every candidate list \<open>pre @ h # post\<close>: when every probe of every host of \<open>pre\<close>
  fails and variant \<open>j\<close> is the first variant of \<open>h\<close> whose health check answers ok, the
  loop of \<open>detectApiBaseUrl\<close> sets \<open>API_BASE_URL\<close> to that variant's base URL without a
  trailing slash and returns it. The requests sent are the four probes of each host of
  \<open>pre\<close> in list order, then the probes of \<open>h\<close> up to variant \<open>j\<close>, and nothing else: no
  host of \<open>post\<close> is probed. Probes are numbered by their position in the fetch log.
\<close>

theorem detect_stops_at_first_reachable_host:
  assumes "\<forall>i<length pre. \<forall>j<4.
      \<not> probe_ok e (length (fetch_log s) + 4 * i + j) (variants (pre ! i) ! j)"
    and "j < 4"
    and "probe_ok e (length (fetch_log s) + 4 * length pre + j) (variants h ! j)"
    and "\<forall>i<j. \<not> probe_ok e (length (fetch_log s) + 4 * length pre + i) (variants h ! i)"
  shows "fst (hosts_loop e (pre @ h # post) s) = strip_trailing_slash (base (variants h ! j)) \<and>
     API_BASE_URL (snd (hosts_loop e (pre @ h # post) s)) = strip_trailing_slash (base (variants h ! j)) \<and>
     fetch_log (snd (hosts_loop e (pre @ h # post) s)) =
       fetch_log s @ map probe_request (concat (map variants pre) @ take (Suc j) (variants h)) \<and>
     (\<not> full_base_given e \<and> candidates e s = pre @ h # post \<longrightarrow>
        detectApiBaseUrl e s = hosts_loop e (pre @ h # post) s)"
  using hosts_loop_hit [OF assms, of post] by (auto simp: detectApiBaseUrl_def)

theorem detect_stops_at_first_reachable_host_witness:
  "fst (detectApiBaseUrl override_env initial_state) = ''http://16.176.194.83:5000/api'' \<and>
   API_BASE_URL (snd (detectApiBaseUrl override_env initial_state)) = ''http://16.176.194.83:5000/api'' \<and>
   map req_url (fetch_log (snd (detectApiBaseUrl override_env initial_state))) =
     [''http://api.example.com/api/health'', ''http://api.example.com:5000/api/health'',
      ''https://api.example.com/api/health'', ''https://api.example.com:5000/api/health'',
      ''http://16.176.194.83/api/health'', ''http://16.176.194.83:5000/api/health'']"
proof -
  let ?e = override_env
  have n: "net ?e = serving ''http://16.176.194.83:5000/api/health''"
    by (simp add: override_env_def)
  have a: "\<forall>i<length [''api.example.com'']. \<forall>j<4.
      \<not> probe_ok ?e (length (fetch_log initial_state) + 4 * i + j) (variants ([''api.example.com''] ! i) ! j)"
    by (simp add: all_less_4 probe_ok_def n serving_def variants_def probe_request_def)
  have b: "(1::nat) < 4" by simp
  have c: "probe_ok ?e (length (fetch_log initial_state) + 4 * length [''api.example.com''] + 1)
      (variants ''16.176.194.83'' ! 1)"
    by (simp add: probe_ok_def n serving_def variants_def probe_request_def response_ok_def)
  have d: "\<forall>i<1. \<not> probe_ok ?e (length (fetch_log initial_state) + 4 * length [''api.example.com''] + i)
      (variants ''16.176.194.83'' ! i)"
    by (simp add: probe_ok_def n serving_def variants_def probe_request_def)
  have f: "\<not> full_base_given ?e"
    by (simp add: full_base_given_def override_env_def offline_env_def)
  from detect_stops_at_first_reachable_host [OF a b c d, of "[''16.176.194.83'', ''10.0.2.2'', ''localhost'']"]
    f candidates_override
  show ?thesis
    by (simp add: variants_def probe_request_def strip_trailing_slash_def) (simp add: initial_state_def)
qed

lemma probe_loop_reachable:
  "fst (probe_loop e host vs s) =
     (\<exists>j<length vs. probe_ok e (length (fetch_log s) + j) (vs ! j))"
proof (cases "\<exists>j<length vs. probe_ok e (length (fetch_log s) + j) (vs ! j)")
  case True
  define P where "P j = (j < length vs \<and> probe_ok e (length (fetch_log s) + j) (vs ! j))" for j
  from True have "\<exists>j. P j" by (auto simp: P_def)
  then have "P (LEAST j. P j)" by (rule LeastI_ex)
  moreover have "\<forall>i<(LEAST j. P j). \<not> P i" using not_less_Least by blast
  ultimately obtain j where j: "j < length vs" "probe_ok e (length (fetch_log s) + j) (vs ! j)"
    "\<forall>i<j. \<not> P i" unfolding P_def by blast
  then have "\<forall>i<j. \<not> probe_ok e (length (fetch_log s) + i) (vs ! i)"
    unfolding P_def by auto
  from probe_loop_hit [OF j(1) j(2) this, of host] True show ?thesis by auto
next
  case False
  then have "\<forall>i<length vs. \<not> probe_ok e (length (fetch_log s) + i) (vs ! i)" by blast
  from probe_loop_miss [OF this, of host] False show ?thesis by auto
qed

lemma probe_loop_log:
  "\<exists>k\<le>length vs. (vs \<noteq> [] \<longrightarrow> 0 < k) \<and>
     fetch_log (snd (probe_loop e host vs s)) = fetch_log s @ map probe_request (take k vs)"
proof (cases "\<exists>j<length vs. probe_ok e (length (fetch_log s) + j) (vs ! j)")
  case True
  define P where "P j = (j < length vs \<and> probe_ok e (length (fetch_log s) + j) (vs ! j))" for j
  from True have "\<exists>j. P j" by (auto simp: P_def)
  then have "P (LEAST j. P j)" by (rule LeastI_ex)
  moreover have "\<forall>i<(LEAST j. P j). \<not> P i" using not_less_Least by blast
  ultimately obtain j where j: "j < length vs" "probe_ok e (length (fetch_log s) + j) (vs ! j)"
    "\<forall>i<j. \<not> P i" unfolding P_def by blast
  then have "\<forall>i<j. \<not> probe_ok e (length (fetch_log s) + i) (vs ! i)"
    unfolding P_def by auto
  from probe_loop_hit [OF j(1) j(2) this, of host] obtain s' where
    "probe_loop e host vs s = (True, s')"
    "fetch_log s' = fetch_log s @ map probe_request (take (Suc j) vs)" by blast
  with j(1) show ?thesis by (intro exI [of _ "Suc j"]) auto
next
  case False
  then have "\<forall>i<length vs. \<not> probe_ok e (length (fetch_log s) + i) (vs ! i)" by blast
  from probe_loop_miss [OF this, of host] obtain s' where
    "probe_loop e host vs s = (False, s')"
    "fetch_log s' = fetch_log s @ map probe_request vs" by blast
  then show ?thesis by (intro exI [of _ "length vs"]) auto
qed

lemma probe_ok_iff:
  "probe_ok e t v =
     (\<exists>ms res. net e t (probe_request v) = Reply ms res \<and>
        ms < 3500 \<and> 200 \<le> res_status res \<and> res_status res \<le> 299)"
  by (cases "net e t (probe_request v)") (auto simp: probe_ok_def response_ok_def)

text \<open>
  C3. The probes of a host are GET requests, without a body, to the \<open>/health\<close> endpoint of
  four variants in this order: http, http on port 5000, https, https on port 5000.
  \<open>tryHost\<close> sends a non-empty prefix of exactly these four and nothing else. Each probe
  runs under a timer of 3500 ms that aborts it, and the host counts as reachable exactly
  when one of the four probes is answered in less than those 3500 ms with a status from
  200 to 299: an answer that takes 3500 ms or longer is never counted, whatever its
  status.
\<close>

theorem tryHost_probes_four_variants:
  "map (\<lambda>v. (req_method (probe_request v), req_url (probe_request v), req_body (probe_request v)))
       (variants host) =
     [(''GET'', ''http://'' @ host @ ''/api/health'', None),
      (''GET'', ''http://'' @ host @ '':5000/api/health'', None),
      (''GET'', ''https://'' @ host @ ''/api/health'', None),
      (''GET'', ''https://'' @ host @ '':5000/api/health'', None)] \<and>
   (\<exists>k. 1 \<le> k \<and> k \<le> 4 \<and>
      fetch_log (snd (tryHost e host s)) = fetch_log s @ map probe_request (take k (variants host))) \<and>
   fst (tryHost e host s) =
     (\<exists>j ms res. j < 4 \<and>
        net e (length (fetch_log s) + j) (probe_request (variants host ! j)) = Reply ms res \<and>
        ms < 3500 \<and> 200 \<le> res_status res \<and> res_status res \<le> 299)"
proof (intro conjI)
  show "map (\<lambda>v. (req_method (probe_request v), req_url (probe_request v), req_body (probe_request v)))
       (variants host) =
     [(''GET'', ''http://'' @ host @ ''/api/health'', None),
      (''GET'', ''http://'' @ host @ '':5000/api/health'', None),
      (''GET'', ''https://'' @ host @ ''/api/health'', None),
      (''GET'', ''https://'' @ host @ '':5000/api/health'', None)]"
    by (simp add: variants_def probe_request_def)
next
  from probe_loop_log [of "variants host" e host s]
  show "\<exists>k. 1 \<le> k \<and> k \<le> 4 \<and>
      fetch_log (snd (tryHost e host s)) = fetch_log s @ map probe_request (take k (variants host))"
    unfolding tryHost_def by (auto simp: length_variants Suc_le_eq variants_def)
next
  have "fst (tryHost e host s) = (\<exists>j<4. probe_ok e (length (fetch_log s) + j) (variants host ! j))"
    unfolding tryHost_def by (simp add: probe_loop_reachable length_variants)
  also have "\<dots> = (\<exists>j ms res. j < 4 \<and>
        net e (length (fetch_log s) + j) (probe_request (variants host ! j)) = Reply ms res \<and>
        ms < 3500 \<and> 200 \<le> res_status res \<and> res_status res \<le> 299)"
    unfolding probe_ok_iff by blast
  finally show "fst (tryHost e host s) =
     (\<exists>j ms res. j < 4 \<and>
        net e (length (fetch_log s) + j) (probe_request (variants host ! j)) = Reply ms res \<and>
        ms < 3500 \<and> 200 \<le> res_status res \<and> res_status res \<le> 299)" .
qed

theorem tryHost_probes_four_variants_witness:
  "fst (tryHost (offline_env\<lparr>net := answering 3500 200 ''ok''\<rparr>) ''10.0.2.2'' initial_state) = False \<and>
   fst (tryHost (offline_env\<lparr>net := answering 3499 200 ''ok''\<rparr>) ''10.0.2.2'' initial_state) = True"
proof -
  let ?slow = "offline_env\<lparr>net := answering 3500 200 ''ok''\<rparr>"
  let ?fast = "offline_env\<lparr>net := answering 3499 200 ''ok''\<rparr>"
  have "fst (tryHost ?slow ''10.0.2.2'' initial_state) =
     (\<exists>j ms res. j < 4 \<and>
        net ?slow (length (fetch_log initial_state) + j) (probe_request (variants ''10.0.2.2'' ! j)) = Reply ms res \<and>
        ms < 3500 \<and> 200 \<le> res_status res \<and> res_status res \<le> 299)"
    using tryHost_probes_four_variants [of "''10.0.2.2''" ?slow initial_state] by (elim conjE)
  then have a: "\<not> fst (tryHost ?slow ''10.0.2.2'' initial_state)"
    by (simp add: answering_def)
  have "fst (tryHost ?fast ''10.0.2.2'' initial_state) =
     (\<exists>j ms res. j < 4 \<and>
        net ?fast (length (fetch_log initial_state) + j) (probe_request (variants ''10.0.2.2'' ! j)) = Reply ms res \<and>
        ms < 3500 \<and> 200 \<le> res_status res \<and> res_status res \<le> 299)"
    using tryHost_probes_four_variants [of "''10.0.2.2''" ?fast initial_state] by (elim conjE)
  moreover have "\<exists>j ms res. j < 4 \<and>
        net ?fast (length (fetch_log initial_state) + j) (probe_request (variants ''10.0.2.2'' ! j)) = Reply ms res \<and>
        ms < 3500 \<and> 200 \<le> res_status res \<and> res_status res \<le> 299"
    by (rule exI [of _ 0]) (simp add: answering_def)
  ultimately have b: "fst (tryHost ?fast ''10.0.2.2'' initial_state)" by simp
  from a b show ?thesis by simp
qed

text \<open>
  C10. When no full base URL is given through the environment and every probe of every
  candidate fails, \<open>detectApiBaseUrl\<close> returns the value \<open>API_BASE_URL\<close> had before the
  call and leaves the variable at that value, after probing all four variants of every
  candidate.
\<close>

theorem detect_all_fail_keeps_base:
  assumes "\<not> full_base_given e"
    and "\<forall>i<length (candidates e s). \<forall>j<4.
      \<not> probe_ok e (length (fetch_log s) + 4 * i + j) (variants (candidates e s ! i) ! j)"
  shows "fst (detectApiBaseUrl e s) = API_BASE_URL s \<and>
     API_BASE_URL (snd (detectApiBaseUrl e s)) = API_BASE_URL s \<and>
     fetch_log (snd (detectApiBaseUrl e s)) =
       fetch_log s @ map probe_request (concat (map variants (candidates e s)))"
  using hosts_loop_miss [OF assms(2)] assms(1) by (auto simp: detectApiBaseUrl_def)

lemma candidates_offline:
  "candidates offline_env initial_state =
     [''16.176.194.83'', ''16.176.194.83'', ''10.0.2.2'', ''localhost'']"
  by (simp add: candidates_def filter_Boolean_def truthy_str_def envHost_def str_or_def
      storedHost_def getItem_def packagerHost_def js_or_def emulatorHost_def offline_env_def initial_state_def)

theorem detect_all_fail_keeps_base_witness:
  "fst (detectApiBaseUrl offline_env initial_state) = ''http://16.176.194.83:5000/api'' \<and>
   API_BASE_URL (snd (detectApiBaseUrl offline_env initial_state)) = ''http://16.176.194.83:5000/api'' \<and>
   length (fetch_log (snd (detectApiBaseUrl offline_env initial_state))) = 16"
proof -
  have a: "\<not> full_base_given offline_env"
    by (simp add: full_base_given_def offline_env_def)
  have b: "\<forall>i<length (candidates offline_env initial_state). \<forall>j<4.
      \<not> probe_ok offline_env (length (fetch_log initial_state) + 4 * i + j)
           (variants (candidates offline_env initial_state ! i) ! j)"
    by (simp add: probe_ok_def offline_env_def)
  from detect_all_fail_keeps_base [OF a b] show ?thesis
    by (simp add: candidates_offline length_variants) (simp add: initial_state_def)
qed

text \<open>
  C2, as the claim states it, fails: the list the code builds does not end with the
  emulator loopback host. On an Android device without overrides the code's list is the
  specified one followed by \<open>localhost\<close>.
\<close>

theorem candidates_not_as_specified:
  "candidates offline_env initial_state \<noteq> spec_candidates offline_env initial_state"
  by (simp add: candidates_def spec_candidates_def filter_Boolean_def truthy_str_def envHost_def str_or_def
      storedHost_def getItem_def packagerHost_def js_or_def emulatorHost_def offline_env_def initial_state_def)

text \<open>
  C2, amended. The candidate list is, in order: the environment override host
  (\<open>EXPO_PUBLIC_API_HOST\<close>, else \<open>API_HOST\<close>), the cached host, the packager host, the
  hardcoded fallback twice, the emulator loopback host (\<open>10.0.2.2\<close> on Android, else
  \<open>localhost\<close>), falsy entries removed, and then always a final \<open>localhost\<close>. When no full
  base URL is given, this is the list \<open>detectApiBaseUrl\<close> tries.
\<close>

theorem candidates_end_with_localhost:
  "candidates e s =
     filter_Boolean
       [str_or (EXPO_PUBLIC_API_HOST e) (API_HOST e),
        storedHost e s,
        packagerHost e,
        Some ''16.176.194.83'',
        Some ''16.176.194.83'',
        Some (if Platform_OS e = ''android'' then ''10.0.2.2'' else ''localhost'')]
     @ [''localhost''] \<and>
   (\<not> full_base_given e \<longrightarrow> detectApiBaseUrl e s = hosts_loop e (candidates e s) s)"
  by (simp add: candidates_def filter_Boolean_def truthy_str_def detectApiBaseUrl_def envHost_def emulatorHost_def)

theorem candidates_end_with_localhost_witness:
  "candidates offline_env initial_state = [''16.176.194.83'', ''16.176.194.83'', ''10.0.2.2'', ''localhost''] \<and>
   detectApiBaseUrl offline_env initial_state =
     hosts_loop offline_env [''16.176.194.83'', ''16.176.194.83'', ''10.0.2.2'', ''localhost''] initial_state"
proof -
  have a: "\<not> full_base_given offline_env"
    by (simp add: full_base_given_def offline_env_def)
  from candidates_end_with_localhost [of offline_env initial_state] a show ?thesis
    by (simp add: filter_Boolean_def truthy_str_def str_or_def
      storedHost_def getItem_def packagerHost_def js_or_def offline_env_def initial_state_def)
qed

subsection \<open>Start-up and the login gate\<close>

lemma probe_loop_length:
  "length (fetch_log (snd (probe_loop e host vs s))) \<le> length (fetch_log s) + length vs"
  using probe_loop_log [of vs e host s] by auto

lemma hosts_loop_length:
  "length (fetch_log (snd (hosts_loop e hs s))) \<le> length (fetch_log s) + 4 * length hs"
proof (induction hs arbitrary: s)
  case Nil
  then show ?case by simp
next
  case (Cons h hs)
  have a: "length (fetch_log (snd (tryHost e h s))) \<le> length (fetch_log s) + 4"
    using probe_loop_length [of e h "variants h" s] by (simp add: tryHost_def length_variants)
  show ?case
  proof (cases "fst (tryHost e h s)")
    case True
    with a show ?thesis by (simp add: split_beta)
  next
    case False
    from Cons.IH [of "snd (tryHost e h s)"] a False show ?thesis by (simp add: split_beta)
  qed
qed

lemma length_filter_Boolean: "length (filter_Boolean xs) \<le> length xs"
  by (simp add: filter_Boolean_def)

lemma length_candidates: "length (candidates e s) \<le> 7"
  unfolding candidates_def by (rule order_trans [OF length_filter_Boolean]) simp

lemma detect_length:
  "length (fetch_log (snd (detectApiBaseUrl e s))) \<le> length (fetch_log s) + 28"
proof (cases "full_base_given e")
  case True
  then show ?thesis by (simp add: detectApiBaseUrl_def)
next
  case False
  from hosts_loop_length [of e "candidates e s" s] length_candidates [of e s] False
  show ?thesis by (simp add: detectApiBaseUrl_def)
qed

lemma test_loop_length:
  "length (fetch_log (snd (test_loop e hs s))) \<le> length (fetch_log s) + length hs"
proof (induction hs arbitrary: s)
  case Nil
  then show ?case by simp
next
  case (Cons h hs)
  have f: "fetch_log (snd (fetch e rq None s)) = fetch_log s @ [rq]" for rq
    by (simp add: fetch_def Let_def)
  from Cons.IH [of "snd (fetch e (health_request h) None s)"] f [of "health_request h"]
  show ?case
    by (auto simp: split_beta split: sum.splits)
qed

lemma testConnection_length:
  "length (fetch_log (snd (testConnection e s))) \<le> length (fetch_log s) + 2"
proof -
  have "length (healthUrls (API_BASE_URL s)) \<le> 2"
    unfolding healthUrls_def by (rule order_trans [OF length_filter_Boolean]) simp
  with test_loop_length [of e "healthUrls (API_BASE_URL s)" s] show ?thesis
    by (simp add: testConnection_def)
qed

lemma conn_round_length:
  "length (fetch_log (snd (conn_round e s))) \<le> length (fetch_log s) + 30"
  using testConnection_length [of e "snd (detectApiBaseUrl e s)"] detect_length [of e s]
  by (simp add: conn_round_def)

lemma initializeApp_rounds:
  "initializeApp e s =
     (if fst (conn_round e s) then conn_round e s else conn_round e (snd (conn_round e s)))"
  by (simp add: initializeApp_def conn_round_def split_beta prod_eq_iff)

lemma test_loop_unreachable:
  "\<forall>t rq. \<exists>ms err. net e t rq = NetFail ms err \<Longrightarrow> fst (test_loop e hs s) = False"
proof (induction hs arbitrary: s)
  case Nil
  then show ?case by simp
next
  case (Cons h hs)
  from Cons.prems obtain ms err where
    "net e (length (fetch_log s)) (health_request h) = NetFail ms err" by blast
  then have "fst (fetch e (health_request h) None s) = Inl err"
    by (simp add: fetch_def Let_def)
  with Cons.IH [OF Cons.prems] show ?case
    by (simp add: split_beta)
qed

text \<open>
  C4, as the claim states it, fails on the screen: while the connection status is failed
  the login button is disabled, so an attempt to log in reaches no handler. No request is
  sent, and no alert is shown either.
\<close>

theorem failed_login_press_shows_no_alert:
  "alerts (fst (login_button_press plain_deps offline_env failed_screen initial_state)) = [] \<and>
   fetch_log (snd (login_button_press plain_deps offline_env failed_screen initial_state)) = []"
  by (simp add: login_button_press_def failed_screen_def initial_state_def)

text \<open>
  C4, amended. \<open>initializeApp\<close> runs one round (host detection, then a connection test)
  and, only if that test fails, exactly one more round on the state the first one left;
  its result is that of the last test it ran, so it returns false exactly when both tests
  fail. No third round exists: it never sends more than 60 requests (two rounds of at most
  seven candidates with four probes each and two health URLs). On the login screen, while
  the connection status is failed, pressing the login button changes nothing: no request
  is sent and no alert is shown. The connection-error alert is what \<open>handleLogin\<close> itself
  does when called with that status, again without sending a request. A button that is
  neither loading nor failed hands the press to \<open>handleLogin\<close>.
\<close>

theorem initializeApp_two_rounds_login_disabled:
  "initializeApp e s =
     (if fst (conn_round e s) then conn_round e s else conn_round e (snd (conn_round e s))) \<and>
   fst (initializeApp e s) = (fst (conn_round e s) \<or> fst (conn_round e (snd (conn_round e s)))) \<and>
   length (fetch_log (snd (initializeApp e s))) \<le> length (fetch_log s) + 60 \<and>
   (connectionStatus u = Failed \<longrightarrow> login_button_press d e u s = (u, s)) \<and>
   (connectionStatus u = Failed \<longrightarrow>
      handleLogin d e u s =
        (u\<lparr>alerts := alerts u @ [(''Connection Error'', connection_error_text)]\<rparr>, s)) \<and>
   (\<not> loading u \<and> connectionStatus u \<noteq> Failed \<longrightarrow>
      login_button_press d e u s = handleLogin d e u s)"
proof (intro conjI)
  show "initializeApp e s =
     (if fst (conn_round e s) then conn_round e s else conn_round e (snd (conn_round e s)))"
    by (rule initializeApp_rounds)
  show "fst (initializeApp e s) = (fst (conn_round e s) \<or> fst (conn_round e (snd (conn_round e s))))"
    by (simp add: initializeApp_rounds)
  show "length (fetch_log (snd (initializeApp e s))) \<le> length (fetch_log s) + 60"
    using conn_round_length [of e s] conn_round_length [of e "snd (conn_round e s)"]
    by (simp add: initializeApp_rounds)
  show "connectionStatus u = Failed \<longrightarrow> login_button_press d e u s = (u, s)"
    by (simp add: login_button_press_def)
  show "connectionStatus u = Failed \<longrightarrow>
      handleLogin d e u s =
        (u\<lparr>alerts := alerts u @ [(''Connection Error'', connection_error_text)]\<rparr>, s)"
    by (simp add: handleLogin_def)
  show "\<not> loading u \<and> connectionStatus u \<noteq> Failed \<longrightarrow>
      login_button_press d e u s = handleLogin d e u s"
    by (simp add: login_button_press_def)
qed

theorem initializeApp_two_rounds_login_disabled_witness:
  "fst (initializeApp offline_env initial_state) = False \<and>
   login_button_press plain_deps offline_env failed_screen initial_state =
     (failed_screen, initial_state) \<and>
   handleLogin plain_deps offline_env failed_screen initial_state =
     (failed_screen\<lparr>alerts := [(''Connection Error'', connection_error_text)]\<rparr>, initial_state) \<and>
   login_button_press plain_deps offline_env (failed_screen\<lparr>connectionStatus := Connected\<rparr>)
       initial_state =
     handleLogin plain_deps offline_env (failed_screen\<lparr>connectionStatus := Connected\<rparr>) initial_state"
proof -
  have n: "\<forall>t rq. \<exists>ms err. net offline_env t rq = NetFail ms err"
    by (simp add: offline_env_def)
  have r: "fst (conn_round offline_env s) = False" for s
    by (simp add: conn_round_def testConnection_def test_loop_unreachable [OF n])
  have f: "connectionStatus failed_screen = Failed" "alerts failed_screen = []"
    "\<not> loading (failed_screen\<lparr>connectionStatus := Connected\<rparr>)"
    "connectionStatus (failed_screen\<lparr>connectionStatus := Connected\<rparr>) \<noteq> Failed"
    by (simp_all add: failed_screen_def)
  from initializeApp_two_rounds_login_disabled [of offline_env initial_state failed_screen plain_deps]
    initializeApp_two_rounds_login_disabled
      [of offline_env initial_state "failed_screen\<lparr>connectionStatus := Connected\<rparr>" plain_deps]
    r f
  show ?thesis by simp
qed

section \<open>Properties of the request wrappers\<close>

subsection \<open>api.request\<close>

lemma api_request_log:
  "fetch_log (snd (api_request e ep opts s)) = fetch_log s @ [outgoing e ep opts s]"
  by (simp add: api_request_def outgoing_def setTimeout_def fetch_def clearTimeout_def Let_def
      split: sum.splits)

lemma api_request_timers:
  "timers (snd (api_request e ep opts s)) = (timers s)(next_timer s := None)"
  by (simp add: api_request_def setTimeout_def fetch_def clearTimeout_def Let_def
      split: sum.splits)

lemma api_request_frame:
  "API_BASE_URL (snd (api_request e ep opts s)) = API_BASE_URL s \<and>
   storage (snd (api_request e ep opts s)) = storage s"
  by (simp add: api_request_def setTimeout_def fetch_def clearTimeout_def Let_def
      split: sum.splits)

lemma api_request_timeout:
  "10000 \<le> latency (net e (length (fetch_log s)) (outgoing e ep opts s)) \<Longrightarrow>
   fst (api_request e ep opts s) =
     Inl (JsError ''Error'' (''Request timed out (10s) contacting '' @ API_BASE_URL s @ ''.''))"
  by (simp add: api_request_def outgoing_def setTimeout_def fetch_def clearTimeout_def Let_def
      request_rethrow_def abort_error_def)

lemma api_request_in_time:
  "net e (length (fetch_log s)) (outgoing e ep opts s) = Reply ms res \<Longrightarrow> ms < 10000 \<Longrightarrow>
   response_ok res \<Longrightarrow>
   fst (api_request e ep opts s) =
     Inr (if res_text res \<noteq> [] then (case JSON_parse e (res_text res) of Some d \<Rightarrow> d | None \<Rightarrow> JNull)
          else JNull)"
  by (simp add: api_request_def outgoing_def setTimeout_def fetch_def clearTimeout_def Let_def)

text \<open>
  C5. Every call of \<open>api.request\<close> sends one request, under a timer of 10000 ms whose
  firing aborts it: when the reply takes 10000 ms or longer, the call throws an Error with
  the message "Request timed out (10s) contacting <API_BASE_URL>."; an ok reply that takes
  less than 10000 ms is returned as parsed data. Whatever the outcome, the timer the call armed is no longer
  pending when it returns or throws, and no other timer is touched.
\<close>

theorem request_timeout_guard:
  "fetch_log (snd (api_request e ep opts s)) = fetch_log s @ [outgoing e ep opts s] \<and>
   (10000 \<le> latency (net e (length (fetch_log s)) (outgoing e ep opts s)) \<longrightarrow>
      fst (api_request e ep opts s) =
        Inl (JsError ''Error'' (''Request timed out (10s) contacting '' @ API_BASE_URL s @ ''.''))) \<and>
   (\<forall>ms res. net e (length (fetch_log s)) (outgoing e ep opts s) = Reply ms res \<and> ms < 10000 \<and>
       response_ok res \<longrightarrow>
      fst (api_request e ep opts s) =
        Inr (if res_text res \<noteq> [] then (case JSON_parse e (res_text res) of Some d \<Rightarrow> d | None \<Rightarrow> JNull)
             else JNull)) \<and>
   timers (snd (api_request e ep opts s)) (next_timer s) = None \<and>
   (\<forall>i. i \<noteq> next_timer s \<longrightarrow> timers (snd (api_request e ep opts s)) i = timers s i)"
  using api_request_log [of e ep opts s] api_request_timeout [of e s ep opts]
    api_request_in_time [of e s ep opts] api_request_timers [of e ep opts s]
  by auto

theorem request_timeout_guard_witness:
  "fst (api_request (offline_env\<lparr>net := answering 10000 200 ''{}''\<rparr>) ''/profile'' no_options
          initial_state) =
     Inl (JsError ''Error'' ''Request timed out (10s) contacting http://16.176.194.83:5000/api.'') \<and>
   timers (snd (api_request (offline_env\<lparr>net := answering 10000 200 ''{}''\<rparr>) ''/profile'' no_options
       initial_state)) 0 = None \<and>
   fst (api_request (offline_env\<lparr>net := answering 9999 200 ''{}''\<rparr>) ''/profile'' no_options
          initial_state) = Inr (JObj [])"
  using request_timeout_guard
      [of "offline_env\<lparr>net := answering 10000 200 ''{}''\<rparr>" "''/profile''" no_options initial_state]
    request_timeout_guard
      [of "offline_env\<lparr>net := answering 9999 200 ''{}''\<rparr>" "''/profile''" no_options initial_state]
  by (simp add: answering_def initial_state_def response_ok_def offline_env_def)

lemma outgoing_headers:
  "req_headers (outgoing e ep opts s) =
     [''Content-Type'' \<mapsto> ''application/json'']
       ++ (if \<not> read_fails e ''accessToken'' \<and> truthy_str (storage s ''accessToken'')
           then [''Authorization'' \<mapsto> ''Bearer '' @ the (storage s ''accessToken'')] else Map.empty)
       ++ caller_headers opts"
  by (simp add: outgoing_def request_config_def request_headers_def getItem_def truthy_str_def)

text \<open>
  C6. The request sent carries \<open>Authorization: Bearer <token>\<close> when the read of
  \<open>accessToken\<close> succeeds with a non-empty token, and no \<open>Authorization\<close> header when
  the read fails or nothing (or the empty string, which JavaScript treats as absent) is
  stored; both unless the caller supplies that header. Every header of
  \<open>options.headers\<close> is sent with the caller's value, and \<open>Content-Type\<close> defaults to
  \<open>application/json\<close>.
\<close>

theorem request_authorization_header:
  "fetch_log (snd (api_request e ep opts s)) = fetch_log s @ [outgoing e ep opts s] \<and>
   (\<not> read_fails e ''accessToken'' \<and> storage s ''accessToken'' = Some tok \<and> tok \<noteq> [] \<and>
      caller_headers opts ''Authorization'' = None \<longrightarrow>
      req_headers (outgoing e ep opts s) ''Authorization'' = Some (''Bearer '' @ tok)) \<and>
   ((read_fails e ''accessToken'' \<or> storage s ''accessToken'' = None \<or> storage s ''accessToken'' = Some []) \<and>
      caller_headers opts ''Authorization'' = None \<longrightarrow>
      req_headers (outgoing e ep opts s) ''Authorization'' = None) \<and>
   (caller_headers opts k = Some v \<longrightarrow> req_headers (outgoing e ep opts s) k = Some v) \<and>
   (caller_headers opts ''Content-Type'' = None \<longrightarrow>
      req_headers (outgoing e ep opts s) ''Content-Type'' = Some ''application/json'')"
  using api_request_log [of e ep opts s]
  by (auto simp: outgoing_headers map_add_def truthy_str_def split: option.splits)

theorem request_authorization_header_witness:
  "req_headers (last (fetch_log (snd (api_request offline_env ''/profile'' no_options signed_in))))
      ''Authorization'' = Some ''Bearer hdr.eyJleHAiOjE4MDAwMDAwMDB9.sig'' \<and>
   req_headers (last (fetch_log (snd (api_request offline_env ''/profile'' no_options initial_state))))
      ''Authorization'' = None \<and>
   req_headers (last (fetch_log (snd (api_request offline_env ''/profile''
        (no_options\<lparr>opt_headers := Some [''Authorization'' \<mapsto> ''Basic xyz'']\<rparr>) signed_in))))
      ''Authorization'' = Some ''Basic xyz''"
  using request_authorization_header [of offline_env "''/profile''" no_options signed_in "''hdr.eyJleHAiOjE4MDAwMDAwMDB9.sig''" "''Authorization''" "''Basic xyz''"]
    request_authorization_header [of offline_env "''/profile''" no_options initial_state "''hdr.eyJleHAiOjE4MDAwMDAwMDB9.sig''" "''Authorization''" "''Basic xyz''"]
    request_authorization_header [of offline_env "''/profile''" "no_options\<lparr>opt_headers := Some [''Authorization'' \<mapsto> ''Basic xyz'']\<rparr>"
           signed_in "''hdr.eyJleHAiOjE4MDAwMDAwMDB9.sig''" "''Authorization''" "''Basic xyz''"]
  by (simp add: caller_headers_def no_options_def signed_in_def initial_state_def offline_env_def)

subsection \<open>api.login\<close>

text \<open>
  C7 at a failing input. A response that is not ok and whose body is the JSON text
  \<open>null\<close>: \<open>errorData\<close> becomes null, reading \<open>errorData.message\<close> throws, and the
  caller gets a TypeError instead of an Error saying "Login failed".
\<close>

theorem login_null_error_body:
  "fst (api_login (offline_env\<lparr>net := answering 80 401 ''null''\<rparr>) ''a@b.c'' ''pw'' initial_state) =
     Inl (JsError ''TypeError'' ''Cannot read property message of null or undefined'')"
  by (simp add: api_login_def fetch_def answering_def response_ok_def offline_env_def type_error_def
      Let_def initial_state_def)

lemma get_prop_field:
  "v \<noteq> JNull \<Longrightarrow> v \<noteq> JUndefined \<Longrightarrow> get_prop v k = Inr (field v k)"
  by (cases v) (simp_all add: field_def)

text \<open>
  What \<open>api.login\<close> does otherwise: it POSTs the JSON of email and password to
  \<open>/auth/login\<close>; the only change to the state is the logged request; an ok response
  whose body parses is returned as parsed; a response that is not ok, whose body is not
  null, throws an Error with the body's \<open>message\<close>, else its \<open>error\<close>, else
  "Login failed" (an unparsable body counts as the empty object).
\<close>

theorem login_wrapper_behaviour:
  "snd (api_login e em pw s) = s\<lparr>fetch_log := fetch_log s @ [login_request e (API_BASE_URL s) em pw]\<rparr> \<and>
   req_method (login_request e b em pw) = ''POST'' \<and>
   req_url (login_request e b em pw) = b @ ''/auth/login'' \<and>
   req_body (login_request e b em pw) =
     Some (JSON_stringify e (JObj [(''email'', JStr em), (''password'', JStr pw)])) \<and>
   (net e (length (fetch_log s)) (login_request e (API_BASE_URL s) em pw) = Reply ms res \<and>
      response_ok res \<and> JSON_parse e (res_text res) = Some d \<longrightarrow>
      fst (api_login e em pw s) = Inr d) \<and>
   (net e (length (fetch_log s)) (login_request e (API_BASE_URL s) em pw) = Reply ms res \<and>
      \<not> response_ok res \<and>
      (case JSON_parse e (res_text res) of Some d \<Rightarrow> d | None \<Rightarrow> JObj []) = errorData \<and>
      errorData \<noteq> JNull \<and> errorData \<noteq> JUndefined \<longrightarrow>
      fst (api_login e em pw s) =
        Inl (new_Error e (js_or (js_or (field errorData ''message'') (field errorData ''error''))
                            (JStr ''Login failed''))))"
proof (intro conjI impI)
  show "snd (api_login e em pw s) = s\<lparr>fetch_log := fetch_log s @ [login_request e (API_BASE_URL s) em pw]\<rparr>"
    by (simp add: api_login_def fetch_def Let_def split: sum.splits option.splits)
  show "req_method (login_request e b em pw) = ''POST''"
    and "req_url (login_request e b em pw) = b @ ''/auth/login''"
    and "req_body (login_request e b em pw) =
     Some (JSON_stringify e (JObj [(''email'', JStr em), (''password'', JStr pw)]))"
    by (simp_all add: login_request_def)
next
  assume "net e (length (fetch_log s)) (login_request e (API_BASE_URL s) em pw) = Reply ms res \<and>
      response_ok res \<and> JSON_parse e (res_text res) = Some d"
  then show "fst (api_login e em pw s) = Inr d"
    by (simp add: api_login_def fetch_def Let_def)
next
  assume a: "net e (length (fetch_log s)) (login_request e (API_BASE_URL s) em pw) = Reply ms res \<and>
      \<not> response_ok res \<and>
      (case JSON_parse e (res_text res) of Some d \<Rightarrow> d | None \<Rightarrow> JObj []) = errorData \<and>
      errorData \<noteq> JNull \<and> errorData \<noteq> JUndefined"
  then have "errorData \<noteq> JNull" "errorData \<noteq> JUndefined" by simp_all
  then have g: "get_prop errorData k = Inr (field errorData k)" for k
    by (rule get_prop_field)
  from a show "fst (api_login e em pw s) =
        Inl (new_Error e (js_or (js_or (field errorData ''message'') (field errorData ''error''))
                            (JStr ''Login failed'')))"
    using g [of "''message''"] g [of "''error''"]
    by (simp add: api_login_def fetch_def Let_def js_or_def)
qed

theorem login_wrapper_behaviour_witness:
  "fst (api_login (offline_env\<lparr>net := answering 80 401 ''{\"message\":\"Invalid credentials\"}''\<rparr>)
          ''a@b.c'' ''pw'' initial_state) =
     Inl (JsError ''Error'' ''Invalid credentials'') \<and>
   fst (api_login (offline_env\<lparr>net := answering 80 401 ''{}''\<rparr>) ''a@b.c'' ''pw'' initial_state) =
     Inl (JsError ''Error'' ''Login failed'') \<and>
   storage (snd (api_login (offline_env\<lparr>net := answering 80 401 ''{}''\<rparr>) ''a@b.c'' ''pw'' initial_state)) =
     storage initial_state"
  using login_wrapper_behaviour [of "offline_env\<lparr>net := answering 80 401 ''{}''\<rparr>" "''a@b.c''" "''pw''"
      initial_state "''x''" 80 "\<lparr>res_status = 401, res_text = ''{}''\<rparr>" JNull "JObj []"]
    login_wrapper_behaviour
      [of "offline_env\<lparr>net := answering 80 401 ''{\"message\":\"Invalid credentials\"}''\<rparr>"
        "''a@b.c''" "''pw''" initial_state "''x''" 80
        "\<lparr>res_status = 401, res_text = ''{\"message\":\"Invalid credentials\"}''\<rparr>" JNull
        "JObj [(''message'', JStr ''Invalid credentials'')]"]
  by (simp add: answering_def response_ok_def offline_env_def field_def js_or_def new_Error_def)

subsection \<open>api.logout\<close>

text \<open>
  C8. Whatever the POST to \<open>/logout\<close> does (any reply, error or timeout), \<open>logout\<close>
  goes on to \<open>clearAuth\<close> on unchanged storage: its result is that of removing the three
  keys, and where AsyncStorage carries the removal out, \<open>accessToken\<close>, \<open>refreshToken\<close>
  and \<open>userData\<close> are gone and every other key is kept.
\<close>

theorem logout_always_wipes:
  "logout e s = clearAuth e (snd (api_request e ''/logout''
       \<lparr>opt_method = Some ''POST'', opt_headers = None, opt_body = JUndefined\<rparr> s)) \<and>
   storage (snd (api_request e ''/logout''
       \<lparr>opt_method = Some ''POST'', opt_headers = None, opt_body = JUndefined\<rparr> s)) = storage s \<and>
   fetch_log (snd (logout e s)) =
     fetch_log s @ [outgoing e ''/logout''
        \<lparr>opt_method = Some ''POST'', opt_headers = None, opt_body = JUndefined\<rparr> s] \<and>
   (\<not> remove_fails e \<longrightarrow>
      fst (logout e s) = Inr () \<and>
      (\<forall>k. storage (snd (logout e s)) k =
         (if k = ''accessToken'' \<or> k = ''refreshToken'' \<or> k = ''userData'' then None
          else storage s k)))"
  using api_request_log [of e "''/logout''" "\<lparr>opt_method = Some ''POST'', opt_headers = None, opt_body = JUndefined\<rparr>" s]
    api_request_frame [of e "''/logout''" "\<lparr>opt_method = Some ''POST'', opt_headers = None, opt_body = JUndefined\<rparr>" s]
  by (simp add: logout_def clearAuth_def multiRemove_def split_beta)

theorem logout_always_wipes_witness:
  "fst (logout offline_env signed_in) = Inr () \<and>
   storage (snd (logout offline_env signed_in)) ''accessToken'' = None \<and>
   storage (snd (logout offline_env signed_in)) ''refreshToken'' = None \<and>
   storage (snd (logout offline_env signed_in)) ''userData'' = None \<and>
   storage (snd (logout offline_env signed_in)) ''lastApiHost'' = Some ''10.0.2.2''"
proof -
  have "\<not> remove_fails offline_env" by (simp add: offline_env_def)
  with logout_always_wipes [of offline_env signed_in]
  have "fst (logout offline_env signed_in) = Inr () \<and>
      (\<forall>k. storage (snd (logout offline_env signed_in)) k =
         (if k = ''accessToken'' \<or> k = ''refreshToken'' \<or> k = ''userData'' then None
          else storage signed_in k))"
    by blast
  then show ?thesis
    by (simp add: signed_in_def)
qed

subsection \<open>api.isAuthenticated\<close>

text \<open>
  C9, as the claim states it, fails: the two storage reads stand before the \<open>try\<close>, so a
  read that AsyncStorage rejects makes \<open>isAuthenticated\<close> throw.
\<close>

theorem isAuthenticated_throws_on_storage_failure:
  "isAuthenticated (offline_env\<lparr>read_fails := (\<lambda>k. True)\<rparr>) signed_in = Inl storage_error"
  by (simp add: isAuthenticated_def getItem_def offline_env_def)

text \<open>
  C9, amended. When both storage reads succeed, \<open>isAuthenticated\<close> returns a boolean
  and never throws. The boolean is true exactly when token and user data are both present
  (not null, not empty), the token's second segment decodes to a payload, and the payload's
  \<open>exp\<close>, read as a number of seconds and multiplied by 1000, is strictly greater than
  the current time in milliseconds. In every other case it is false. When one of the two
  reads is rejected, the rejection is what \<open>isAuthenticated\<close> throws.
\<close>

theorem isAuthenticated_total_when_reads_succeed:
  "(read_fails e ''accessToken'' \<or> read_fails e ''userData'' \<longrightarrow>
      isAuthenticated e s = Inl storage_error) \<and>
   (\<not> read_fails e ''accessToken'' \<and> \<not> read_fails e ''userData'' \<longrightarrow>
      (\<exists>b. isAuthenticated e s = Inr b \<and>
         b = (truthy_str (storage s ''accessToken'') \<and> truthy_str (storage s ''userData'') \<and>
              (\<exists>payload ex n. decode_payload e (the (storage s ''accessToken'')) = Some payload \<and>
                  get_prop payload ''exp'' = Inr ex \<and> to_number e ex = Some n \<and>
                  Date_now e < n * 1000))))"
  by (auto simp: isAuthenticated_def getItem_def split: option.splits sum.splits)

theorem isAuthenticated_total_when_reads_succeed_witness:
  "isAuthenticated offline_env signed_in = Inr True \<and>
   isAuthenticated (offline_env\<lparr>Date_now := 1800000000000\<rparr>) signed_in = Inr False \<and>
   isAuthenticated offline_env initial_state = Inr False"
proof -
  have r: "\<not> read_fails offline_env ''accessToken''" "\<not> read_fails offline_env ''userData''"
    by (simp_all add: offline_env_def)
  have r': "\<not> read_fails (offline_env\<lparr>Date_now := 1800000000000\<rparr>) ''accessToken''"
    "\<not> read_fails (offline_env\<lparr>Date_now := 1800000000000\<rparr>) ''userData''"
    by (simp_all add: offline_env_def)
  have d: "decode_payload offline_env ''hdr.eyJleHAiOjE4MDAwMDAwMDB9.sig'' = Some (JObj [(''exp'', JNum 1800000000)])"
    by (simp add: decode_payload_def offline_env_def Let_def)
  have d': "decode_payload (offline_env\<lparr>Date_now := 1800000000000\<rparr>) ''hdr.eyJleHAiOjE4MDAwMDAwMDB9.sig'' =
      Some (JObj [(''exp'', JNum 1800000000)])"
    by (simp add: decode_payload_def offline_env_def Let_def)
  have n: "Date_now offline_env = 1700000000000" by (simp add: offline_env_def)
  from isAuthenticated_total_when_reads_succeed [of offline_env signed_in] r have "isAuthenticated offline_env signed_in = Inr True"
    by (auto simp: signed_in_def truthy_str_def d n)
  moreover from isAuthenticated_total_when_reads_succeed
      [of "offline_env\<lparr>Date_now := 1800000000000\<rparr>" signed_in] r' 
  have "isAuthenticated (offline_env\<lparr>Date_now := 1800000000000\<rparr>) signed_in = Inr False"
    by (auto simp: signed_in_def truthy_str_def d')
  moreover from isAuthenticated_total_when_reads_succeed [of offline_env initial_state] r have "isAuthenticated offline_env initial_state = Inr False"
    by (auto simp: initial_state_def truthy_str_def)
  ultimately show ?thesis by simp
qed

end
